theory Spec2Isabelle
  imports Complex_Main "HOL-Library.Word" "HOL-Library.Signed_Division"
begin

section \<open>The Datadog reporter of go-metrics-datadog (datadog.go)\<close>

text \<open>
  The reporter reads a go-metrics registry and hands every metric to a statsd client as
  \<open>Count\<close> and \<open>Gauge\<close> calls. The model below follows \<open>datadog.go\<close> function by
  function.

  \<^item> Go's \<open>int64\<close> is \<open>64 word\<close>: subtraction wraps, \<open>sint\<close> reads the signed value.
  \<^item> Go's \<open>float64\<close> is modelled by \<open>real\<close>: arithmetic is exact, and rounding, NaN and
    the infinities are outside the model. The conversion \<open>float64 \<rightarrow> int64\<close> cuts the
    fraction off (towards zero), as Go does for values in range.
  \<^item> The statsd client and the registry are other packages. The client's transport is
    a type parameter \<open>'c\<close> and its functions are the fields of a record \<open>statsd\<close>; what
    the registry's \<open>Each\<close> hands to the callback at one flush is a list of named metric
    readings.
  \<^item> A Go panic (an index out of range) is the \<open>Inl\<close> of a sum type.
  \<^item> \<open>FlushWithInterval\<close>, which calls \<open>submit\<close> at every tick and never returns, is
    left out: each of its rounds is one \<open>submit\<close>.
\<close>

subsection \<open>Go values\<close>

type_synonym int64 = "64 word"
type_synonym float64 = real

datatype error = Error string

datatype panic = IndexOutOfRange

text \<open>\<open>float64(x)\<close> for an \<open>int64\<close> \<open>x\<close>.\<close>

definition float64_of_int64 :: "int64 \<Rightarrow> float64" where
  "float64_of_int64 x = real_of_int (sint x)"

text \<open>\<open>int64(x)\<close> for a \<open>float64\<close> \<open>x\<close>: the fraction is discarded.\<close>

definition trunc :: "float64 \<Rightarrow> int" where
  "trunc x = (if 0 \<le> x then \<lfloor>x\<rfloor> else \<lceil>x\<rceil>)"

definition int64_of_float64 :: "float64 \<Rightarrow> int64" where
  "int64_of_float64 x = word_of_int (trunc x)"

text \<open>Go's \<open>/\<close> and \<open>%\<close> on \<open>int64\<close> truncate towards zero.\<close>

definition go_div :: "int64 \<Rightarrow> int64 \<Rightarrow> int64" where
  "go_div a b = word_of_int (sint a sdiv sint b)"

definition go_mod :: "int64 \<Rightarrow> int64 \<Rightarrow> int64" where
  "go_mod a b = word_of_int (sint a smod sint b)"

text \<open>\<open>strings.HasSuffix\<close>.\<close>

definition HasSuffix :: "string \<Rightarrow> string \<Rightarrow> bool" where
  "HasSuffix s suffix =
     (length suffix \<le> length s \<and> drop (length s - length suffix) s = suffix)"

subsection \<open>Package time\<close>

text \<open>
  A \<open>time.Duration\<close> is an \<open>int64\<close> count of nanoseconds; \<open>Second\<close> is \<open>1e9\<close> of them.
  \<open>Seconds\<close> is the standard library's
  \<^verbatim>\<open>sec := d / Second; nsec := d % Second; return float64(sec) + float64(nsec)/1e9\<close>.
\<close>

type_synonym Duration = int64

definition Second :: Duration where
  "Second = 1000000000"

definition Seconds :: "Duration \<Rightarrow> float64" where
  "Seconds d =
     (let sec = go_div d Second; nsec = go_mod d Second
      in float64_of_int64 sec + float64_of_int64 nsec / 1000000000)"

subsection \<open>Package fmt: the verb \<open>%.2f\<close>\<close>

text \<open>
  \<open>fmt.Sprintf(".pct-%.2f", x)\<close> prints \<open>x\<close> in decimal with two digits after the point,
  rounded to the nearest hundredth, a tie going to the even digit, and a minus sign in
  front of a negative value.
\<close>

definition digit :: "nat \<Rightarrow> char" where
  "digit d = ''0123456789'' ! d"

fun decimal :: "nat \<Rightarrow> string" where
  "decimal n = (if n < 10 then [digit n] else decimal (n div 10) @ [digit (n mod 10)])"

declare decimal.simps [simp del]

definition round_half_even :: "float64 \<Rightarrow> int" where
  "round_half_even x =
     (let f = \<lfloor>x\<rfloor>; d = x - real_of_int f
      in if d < 1 / 2 then f
         else if 1 / 2 < d then f + 1
         else if even f then f else f + 1)"

definition fmt_2f :: "float64 \<Rightarrow> string" where
  "fmt_2f x =
     (let h = nat (round_half_even (\<bar>x\<bar> * 100))
      in (if x < 0 then ''-'' else '''') @ decimal (h div 100) @ ''.''
           @ [digit (h mod 100 div 10), digit (h mod 10)])"

definition Sprintf_pct :: "float64 \<Rightarrow> string" where
  "Sprintf_pct x = ''.pct-'' @ fmt_2f x"

subsection \<open>Package metrics: what the reporter reads\<close>

text \<open>
  A snapshot is read through its methods; the record fields are those methods.
  \<open>Percentiles\<close> takes the list of fractions and returns a list of values.
\<close>

record HistogramSnapshot =
  h_Count :: int64
  h_Max :: int64
  h_Min :: int64
  h_Mean :: float64
  h_StdDev :: float64
  h_Variance :: float64
  h_Percentiles :: "float64 list \<Rightarrow> float64 list"

record MeterSnapshot =
  m_Count :: int64
  m_Rate1 :: float64
  m_Rate5 :: float64
  m_Rate15 :: float64
  m_RateMean :: float64

record TimerSnapshot =
  t_Count :: int64
  t_Max :: int64
  t_Min :: int64
  t_Mean :: float64
  t_StdDev :: float64
  t_Variance :: float64
  t_Percentiles :: "float64 list \<Rightarrow> float64 list"

text \<open>
  The cases of the type switch in \<open>submit\<close>, each with what the callback reads from the
  metric: \<open>Count()\<close>, \<open>Value()\<close> or \<open>Snapshot()\<close>. \<open>Other\<close> is a registered value that
  matches no case (a \<open>metrics.Healthcheck\<close>, say).
\<close>

datatype metric =
    Counter int64
  | Gauge int64
  | GaugeFloat64 float64
  | Histogram HistogramSnapshot
  | Meter MeterSnapshot
  | Timer TimerSnapshot
  | Other

text \<open>
  A \<open>metrics.Registry\<close> value is a handle. \<open>Each\<close> calls the callback once for every
  entry; which entries those are depends on the moment, so a flush takes the function
  from handles to entry lists that holds at that moment.
\<close>

datatype Registry = DefaultRegistry | RegistryRef nat

type_synonym entries = "(string \<times> metric) list"

subsection \<open>Package statsd: the wire client\<close>

text \<open>
  A call of \<open>Count(name, value, tags, rate)\<close> or \<open>Gauge(name, value, tags, rate)\<close> on the
  client.
\<close>

datatype call =
    is_Count: cn_Count (call_name: string) (count_value: int64)
      (call_tags: "string list") (call_rate: float64)
  | is_Gauge: cn_Gauge (call_name: string) (gauge_value: float64)
      (call_tags: "string list") (call_rate: float64)

record 'c Client =
  Namespace :: string
  transport :: 'c

text \<open>
  The package's functions: the two constructors, which may fail, and the sending of one
  call, which returns an error or \<open>nil\<close> and leaves the client in a new state.
\<close>

record 'c statsd =
  statsd_New :: "string \<Rightarrow> error + 'c Client"
  statsd_NewBuffered :: "string \<Rightarrow> int \<Rightarrow> error + 'c Client"
  statsd_send :: "'c Client \<Rightarrow> call \<Rightarrow> error option \<times> 'c Client"

subsection \<open>The reporter\<close>

record 'c Reporter =
  addr :: string
  prefix :: string
  registry :: Registry
  cn :: "'c Client option"
  tags :: "string list"
  percentiles :: "float64 list"
  p :: "string list"
  ss :: "string \<rightharpoonup> int64"

type_synonym 'c configFn = "'c Reporter \<Rightarrow> 'c Reporter"


definition WithPrefix :: "string \<Rightarrow> 'c configFn" where
  "WithPrefix v =
     (\<lambda>r. let v' = (if \<not> HasSuffix v ''.'' then v @ ''.'' else v)
          in r\<lparr>prefix := v'\<rparr>)"




text \<open>\<open>m[k]\<close> on a Go map: the zero value when the key is absent.\<close>

definition index_map :: "(string \<rightharpoonup> int64) \<Rightarrow> string \<Rightarrow> int64" where
  "index_map m k = (case m k of None \<Rightarrow> 0 | Some l \<Rightarrow> l)"

text \<open>The struct literal at the head of \<open>New\<close>; the fields it leaves out are zero.\<close>

definition initial :: "'c Reporter" where
  "initial =
     \<lparr> addr = ''127.0.0.1:8125'', prefix = '''', registry = DefaultRegistry, cn = None,
       tags = [], percentiles = [50 / 100, 75 / 100, 95 / 100, 99 / 100, 999 / 1000],
       p = [], ss = Map.empty \<rparr>"

text \<open>
  \<open>New\<close>: the options in order, the labels when there are percentiles, a client when
  none was given, and the prefix as the client's namespace. \<open>FlushLength\<close> is the
  package variable.
\<close>

definition New :: "'c statsd \<Rightarrow> int \<Rightarrow> 'c configFn list \<Rightarrow> error + 'c Reporter" where
  "New lib FlushLength options =
     (let r = fold (\<lambda>opt r. opt r) options initial;
          r = (if length (percentiles r) > 0
               then r\<lparr>p := map (\<lambda>q. Sprintf_pct (q * 100)) (percentiles r)\<rparr>
               else r);
          made = (case cn r of
                    None \<Rightarrow>
                      (if FlushLength > 1 then statsd_NewBuffered lib (addr r) FlushLength
                       else statsd_New lib (addr r))
                  | Some c \<Rightarrow> Inr c)
      in case made of
           Inl err \<Rightarrow> Inl err
         | Inr c \<Rightarrow> Inr (r\<lparr>cn := Some (c\<lparr>Namespace := prefix r\<rparr>)\<rparr>))"

text \<open>
  One call on \<open>r.cn\<close>. The error the client returns is dropped, as \<open>submit\<close> drops it.
  On a nil client the package's methods return at once, and the client stays nil; a
  reporter that \<open>New\<close> returned has a client.
\<close>

definition cn_call :: "'c statsd \<Rightarrow> call \<Rightarrow> 'c Reporter \<Rightarrow> 'c Reporter" where
  "cn_call lib k r =
     (case cn r of
        None \<Rightarrow> r
      | Some c \<Rightarrow> (let (err, c') = statsd_send lib c k in r\<lparr>cn := Some c'\<rparr>))"

fun cn_calls :: "'c statsd \<Rightarrow> call list \<Rightarrow> 'c Reporter \<Rightarrow> 'c Reporter" where
  "cn_calls lib [] r = r"
| "cn_calls lib (k # ks) r = cn_calls lib ks (cn_call lib k r)"

text \<open>
  The loop \<open>for i, p := range r.p { r.cn.Gauge(name+p, conv(values[i]), r.tags, 1) }\<close>,
  from index \<open>i\<close> on; \<open>conv\<close> is the identity for a histogram and the conversion to
  milliseconds for a timer. \<open>values[i]\<close> panics when \<open>i\<close> is not below \<open>len(values)\<close>.
\<close>

fun range_p ::
  "'c statsd \<Rightarrow> string \<Rightarrow> (float64 \<Rightarrow> float64) \<Rightarrow> float64 list \<Rightarrow> nat \<Rightarrow> string list
     \<Rightarrow> 'c Reporter \<Rightarrow> panic + ('c Reporter \<times> call list)" where
  "range_p lib name conv values i [] r = Inr (r, [])"
| "range_p lib name conv values i (l # ls) r =
     (if i < length values
      then (let k = cn_Gauge (name @ l) (conv (values ! i)) (tags r) 1
            in case range_p lib name conv values (Suc i) ls (cn_call lib k r) of
                 Inl pn \<Rightarrow> Inl pn
               | Inr (r', ks) \<Rightarrow> Inr (r', k # ks))
      else Inl IndexOutOfRange)"

text \<open>\<open>time.Duration(x).Seconds()*1000\<close> for an \<open>int64\<close> and for a \<open>float64\<close> \<open>x\<close>.\<close>

definition millis_int64 :: "int64 \<Rightarrow> float64" where
  "millis_int64 x = Seconds x * 1000"

definition millis_float64 :: "float64 \<Rightarrow> float64" where
  "millis_float64 x = Seconds (int64_of_float64 x) * 1000"

text \<open>
  The callback that \<open>submit\<close> passes to \<open>Each\<close>: the reporter after it, and the calls it
  made on the client, in order.
\<close>

fun each_fn ::
  "'c statsd \<Rightarrow> string \<Rightarrow> metric \<Rightarrow> 'c Reporter \<Rightarrow> panic + ('c Reporter \<times> call list)" where
  "each_fn lib name (Counter v) r =
     (let l = index_map (ss r) name;
          k = cn_Count name (v - l) (tags r) 1;
          r = cn_call lib k r
      in Inr (r\<lparr>ss := (ss r)(name \<mapsto> v)\<rparr>, [k]))"
| "each_fn lib name (Gauge v) r =
     (let k = cn_Gauge name (float64_of_int64 v) (tags r) 1
      in Inr (cn_call lib k r, [k]))"
| "each_fn lib name (GaugeFloat64 v) r =
     (let k = cn_Gauge name v (tags r) 1
      in Inr (cn_call lib k r, [k]))"
| "each_fn lib name (Histogram ms) r =
     (let ks = [cn_Gauge (name @ ''.count'') (float64_of_int64 (h_Count ms)) (tags r) 1,
                cn_Gauge (name @ ''.max'') (float64_of_int64 (h_Max ms)) (tags r) 1,
                cn_Gauge (name @ ''.min'') (float64_of_int64 (h_Min ms)) (tags r) 1,
                cn_Gauge (name @ ''.mean'') (h_Mean ms) (tags r) 1,
                cn_Gauge (name @ ''.stddev'') (h_StdDev ms) (tags r) 1,
                cn_Gauge (name @ ''.var'') (h_Variance ms) (tags r) 1];
          r = cn_calls lib ks r
      in if length (percentiles r) > 0
         then (let values = h_Percentiles ms (percentiles r)
               in case range_p lib name (\<lambda>x. x) values 0 (p r) r of
                    Inl pn \<Rightarrow> Inl pn
                  | Inr (r', ks') \<Rightarrow> Inr (r', ks @ ks'))
         else Inr (r, ks))"
| "each_fn lib name (Meter ms) r =
     (let ks = [cn_Gauge (name @ ''.count'') (float64_of_int64 (m_Count ms)) (tags r) 1,
                cn_Gauge (name @ ''.rate1'') (m_Rate1 ms) (tags r) 1,
                cn_Gauge (name @ ''.rate5'') (m_Rate5 ms) (tags r) 1,
                cn_Gauge (name @ ''.rate15'') (m_Rate15 ms) (tags r) 1,
                cn_Gauge (name @ ''.mean'') (m_RateMean ms) (tags r) 1]
      in Inr (cn_calls lib ks r, ks))"
| "each_fn lib name (Timer ms) r =
     (let ks = [cn_Gauge (name @ ''.count'') (float64_of_int64 (t_Count ms)) (tags r) 1,
                cn_Gauge (name @ ''.max'') (millis_int64 (t_Max ms)) (tags r) 1,
                cn_Gauge (name @ ''.min'') (millis_int64 (t_Min ms)) (tags r) 1,
                cn_Gauge (name @ ''.mean'') (millis_float64 (t_Mean ms)) (tags r) 1,
                cn_Gauge (name @ ''.stddev'') (millis_float64 (t_StdDev ms)) (tags r) 1];
          r = cn_calls lib ks r
      in if length (percentiles r) > 0
         then (let values = t_Percentiles ms (percentiles r)
               in case range_p lib name millis_float64 values 0 (p r) r of
                    Inl pn \<Rightarrow> Inl pn
                  | Inr (r', ks') \<Rightarrow> Inr (r', ks @ ks'))
         else Inr (r, ks))"
| "each_fn lib name Other r = Inr (r, [])"

text \<open>\<open>Each\<close> over the entries of one flush, in the order the registry gives them.\<close>

fun Each :: "'c statsd \<Rightarrow> entries \<Rightarrow> 'c Reporter \<Rightarrow> panic + ('c Reporter \<times> call list)" where
  "Each lib [] r = Inr (r, [])"
| "Each lib ((name, i) # es) r =
     (case each_fn lib name i r of
        Inl pn \<Rightarrow> Inl pn
      | Inr (r1, ks) \<Rightarrow>
          (case Each lib es r1 of
             Inl pn \<Rightarrow> Inl pn
           | Inr (r2, ks') \<Rightarrow> Inr (r2, ks @ ks')))"

text \<open>
  \<open>submit\<close> returns \<open>nil\<close> after \<open>Each\<close>; \<open>Flush\<close> returns what \<open>submit\<close> returns. The
  result is the returned error, the reporter afterwards and the calls made.
\<close>

definition submit ::
  "'c statsd \<Rightarrow> (Registry \<Rightarrow> entries) \<Rightarrow> 'c Reporter
     \<Rightarrow> panic + (error option \<times> 'c Reporter \<times> call list)" where
  "submit lib world r =
     (case Each lib (world (registry r)) r of
        Inl pn \<Rightarrow> Inl pn
      | Inr (r', ks) \<Rightarrow> Inr (None, r', ks))"

definition Flush ::
  "'c statsd \<Rightarrow> (Registry \<Rightarrow> entries) \<Rightarrow> 'c Reporter
     \<Rightarrow> panic + (error option \<times> 'c Reporter \<times> call list)" where
  "Flush lib world r = submit lib world r"

subsection \<open>Notions used to state the properties\<close>

text \<open>
  The calls the percentile loop makes when it does not panic: label \<open>ls ! j\<close> goes with
  value \<open>vs ! j\<close>.
\<close>

definition pct_calls ::
  "string \<Rightarrow> (float64 \<Rightarrow> float64) \<Rightarrow> string list \<Rightarrow> string list \<Rightarrow> float64 list
     \<Rightarrow> call list" where
  "pct_calls name conv tgs ls vs =
     map (\<lambda>(l, v). cn_Gauge (name @ l) (conv v) tgs 1) (zip ls vs)"

text \<open>
  The percentile loop of the callback stays within \<open>values\<close> for this metric: there are
  no percentiles, or no more labels than values.
\<close>

definition labels_fit :: "'c Reporter \<Rightarrow> metric \<Rightarrow> bool" where
  "labels_fit r i =
     (case i of
        Histogram ms \<Rightarrow>
          percentiles r = [] \<or> length (p r) \<le> length (h_Percentiles ms (percentiles r))
      | Timer ms \<Rightarrow>
          percentiles r = [] \<or> length (p r) \<le> length (t_Percentiles ms (percentiles r))
      | _ \<Rightarrow> True)"

text \<open>
  What package metrics does: \<open>Percentiles(ps)\<close> returns one value for each fraction of
  \<open>ps\<close>.
\<close>

definition Percentiles_sized :: "float64 list \<Rightarrow> metric \<Rightarrow> bool" where
  "Percentiles_sized ps i =
     (case i of
        Histogram ms \<Rightarrow> length (h_Percentiles ms ps) = length ps
      | Timer ms \<Rightarrow> length (t_Percentiles ms ps) = length ps
      | _ \<Rightarrow> True)"

text \<open>The label cache holds the label of each percentile, in order.\<close>

definition labels_cached :: "'c Reporter \<Rightarrow> bool" where
  "labels_cached r = (p r = map (\<lambda>q. Sprintf_pct (q * 100)) (percentiles r))"

text \<open>The count-type calls made under one name.\<close>

definition count_calls :: "string \<Rightarrow> call list \<Rightarrow> call list" where
  "count_calls name ks = filter (\<lambda>k. is_Count k \<and> call_name k = name) ks"




subsection \<open>Test data\<close>

text \<open>
  A client package whose constructors succeed and whose every send fails; the transport
  counts the sends tried.
\<close>

definition refusing :: "nat statsd" where
  "refusing =
     \<lparr> statsd_New = (\<lambda>a. Inr \<lparr>Namespace = '''', transport = 0\<rparr>),
       statsd_NewBuffered = (\<lambda>a n. Inr \<lparr>Namespace = '''', transport = 0\<rparr>),
       statsd_send =
         (\<lambda>c k. (Some (Error ''connection refused''), c\<lparr>transport := Suc (transport c)\<rparr>)) \<rparr>"


definition test_reporter :: "nat Reporter" where
  "test_reporter =
     \<lparr> addr = ''127.0.0.1:9999'', prefix = '''', registry = RegistryRef 0,
       cn = Some \<lparr>Namespace = '''', transport = 0\<rparr>, tags = [],
       percentiles = [50 / 100, 75 / 100, 95 / 100, 99 / 100, 999 / 1000],
       p = [''.pct-50.00'', ''.pct-75.00'', ''.pct-95.00'', ''.pct-99.00'', ''.pct-99.90''],
       ss = Map.empty \<rparr>"

text \<open>The histogram of \<open>TestReporter_FlushHistogram\<close>, updated with 11 and 1.\<close>

definition foo_histogram :: HistogramSnapshot where
  "foo_histogram =
     \<lparr> h_Count = 2, h_Max = 11, h_Min = 1, h_Mean = 6, h_StdDev = 5, h_Variance = 25,
       h_Percentiles = map (\<lambda>q. if q \<le> 1 / 2 then 6 else 11) \<rparr>"



text \<open>A meter marked ten times.\<close>

definition foo_meter :: MeterSnapshot where
  "foo_meter =
     \<lparr> m_Count = 10, m_Rate1 = 0, m_Rate5 = 0, m_Rate15 = 0, m_RateMean = 250 \<rparr>"

section \<open>Lemmas about the callback and the iteration\<close>

lemma cn_call_fields [simp]:
  "addr (cn_call lib k r) = addr r" "prefix (cn_call lib k r) = prefix r"
  "registry (cn_call lib k r) = registry r" "tags (cn_call lib k r) = tags r"
  "percentiles (cn_call lib k r) = percentiles r" "p (cn_call lib k r) = p r"
  "ss (cn_call lib k r) = ss r"
  by (simp_all add: cn_call_def split: option.split prod.split)

lemma cn_calls_fields [simp]:
  "addr (cn_calls lib ks r) = addr r" "prefix (cn_calls lib ks r) = prefix r"
  "registry (cn_calls lib ks r) = registry r" "tags (cn_calls lib ks r) = tags r"
  "percentiles (cn_calls lib ks r) = percentiles r" "p (cn_calls lib ks r) = p r"
  "ss (cn_calls lib ks r) = ss r"
  by (induction ks arbitrary: r; simp)+

lemma range_p_eq:
  "range_p lib name conv values i ls r =
     (if length ls \<le> length values - i
      then Inr (cn_calls lib (pct_calls name conv (tags r) ls (drop i values)) r,
                pct_calls name conv (tags r) ls (drop i values))
      else Inl IndexOutOfRange)"
proof (induction ls arbitrary: i r)
  case Nil
  show ?case by (simp add: pct_calls_def)
next
  case (Cons l ls)
  show ?case
  proof (cases "i < length values")
    case True
    then have d: "drop i values = values ! i # drop (Suc i) values"
      by (simp add: Cons_nth_drop_Suc)
    from True have "(length (l # ls) \<le> length values - i) = (length ls \<le> length values - Suc i)"
      by auto
    with True show ?thesis
      by (simp add: Cons d pct_calls_def Let_def)
  next
    case False
    then show ?thesis by simp
  qed
qed

text \<open>The callback on each kind of metric, the loop resolved.\<close>

lemma each_fn_Histogram:
  "each_fn lib name (Histogram ms) r =
     (let ks = [cn_Gauge (name @ ''.count'') (float64_of_int64 (h_Count ms)) (tags r) 1,
                cn_Gauge (name @ ''.max'') (float64_of_int64 (h_Max ms)) (tags r) 1,
                cn_Gauge (name @ ''.min'') (float64_of_int64 (h_Min ms)) (tags r) 1,
                cn_Gauge (name @ ''.mean'') (h_Mean ms) (tags r) 1,
                cn_Gauge (name @ ''.stddev'') (h_StdDev ms) (tags r) 1,
                cn_Gauge (name @ ''.var'') (h_Variance ms) (tags r) 1];
          ks' = (if percentiles r = [] then []
                 else pct_calls name (\<lambda>x. x) (tags r) (p r) (h_Percentiles ms (percentiles r)))
      in if labels_fit r (Histogram ms)
         then Inr (cn_calls lib (ks @ ks') r, ks @ ks')
         else Inl IndexOutOfRange)"
  by (simp add: range_p_eq labels_fit_def Let_def)

lemma each_fn_Timer:
  "each_fn lib name (Timer ms) r =
     (let ks = [cn_Gauge (name @ ''.count'') (float64_of_int64 (t_Count ms)) (tags r) 1,
                cn_Gauge (name @ ''.max'') (millis_int64 (t_Max ms)) (tags r) 1,
                cn_Gauge (name @ ''.min'') (millis_int64 (t_Min ms)) (tags r) 1,
                cn_Gauge (name @ ''.mean'') (millis_float64 (t_Mean ms)) (tags r) 1,
                cn_Gauge (name @ ''.stddev'') (millis_float64 (t_StdDev ms)) (tags r) 1];
          ks' = (if percentiles r = [] then []
                 else pct_calls name millis_float64 (tags r) (p r)
                        (t_Percentiles ms (percentiles r)))
      in if labels_fit r (Timer ms)
         then Inr (cn_calls lib (ks @ ks') r, ks @ ks')
         else Inl IndexOutOfRange)"
  by (simp add: range_p_eq labels_fit_def Let_def)

lemmas each_fn_loops = each_fn.simps(4) each_fn.simps(6)

lemma each_fn_Inr_iff:
  "(\<exists>r' ks. each_fn lib name i r = Inr (r', ks)) = labels_fit r i"
  by (cases i) (simp_all add: each_fn_Histogram each_fn_Timer Let_def labels_fit_def
      del: each_fn_loops)

lemma each_fn_frame:
  assumes "each_fn lib name i r = Inr (r', ks)"
  shows "addr r' = addr r \<and> prefix r' = prefix r \<and> registry r' = registry r
         \<and> tags r' = tags r \<and> percentiles r' = percentiles r \<and> p r' = p r"
  using assms
  by (cases i) (auto simp: each_fn_Histogram each_fn_Timer Let_def
      simp del: each_fn_loops split: if_splits)

lemma each_fn_ss:
  assumes "each_fn lib name i r = Inr (r', ks)"
  shows "ss r' = (case i of Counter v \<Rightarrow> (ss r)(name \<mapsto> v) | _ \<Rightarrow> ss r)"
  using assms
  by (cases i) (auto simp: each_fn_Histogram each_fn_Timer Let_def
      simp del: each_fn_loops split: if_splits)

lemma each_fn_count_calls:
  assumes "each_fn lib name i r = Inr (r', ks)" "k \<in> set ks" "is_Count k"
  shows "\<exists>v. i = Counter v \<and> call_name k = name"
  using assms
  by (cases i) (auto simp: each_fn_Histogram each_fn_Timer Let_def pct_calls_def
      simp del: each_fn_loops split: if_splits dest!: set_zip_leftD)

lemma Each_append:
  "Each lib (xs @ ys) r =
     (case Each lib xs r of
        Inl pn \<Rightarrow> Inl pn
      | Inr (r1, ks) \<Rightarrow>
          (case Each lib ys r1 of
             Inl pn \<Rightarrow> Inl pn
           | Inr (r2, ks') \<Rightarrow> Inr (r2, ks @ ks')))"
  by (induction xs arbitrary: r) (auto split: sum.splits prod.splits)

lemma Each_frame:
  "Each lib es r = Inr (r', ks) \<Longrightarrow>
     addr r' = addr r \<and> prefix r' = prefix r \<and> registry r' = registry r
       \<and> tags r' = tags r \<and> percentiles r' = percentiles r \<and> p r' = p r"
proof (induction es arbitrary: r ks)
  case Nil
  then show ?case by simp
next
  case (Cons e es)
  obtain name i where e: "e = (name, i)" by (cases e)
  from Cons.prems e obtain r1 ks1 ks2 where
    1: "each_fn lib name i r = Inr (r1, ks1)" and 2: "Each lib es r1 = Inr (r', ks2)"
    by (auto split: sum.splits prod.splits)
  from each_fn_frame [OF 1] Cons.IH [OF 2] show ?case by simp
qed

lemma labels_fit_cong:
  "percentiles r' = percentiles r \<Longrightarrow> p r' = p r \<Longrightarrow> labels_fit r' i = labels_fit r i"
  by (simp add: labels_fit_def split: metric.splits)

lemma Each_Inr_iff:
  "(\<exists>r' ks. Each lib es r = Inr (r', ks)) = (\<forall>(name, i) \<in> set es. labels_fit r i)"
proof (induction es arbitrary: r)
  case Nil
  show ?case by simp
next
  case (Cons e es)
  obtain name i where e: "e = (name, i)" by (cases e)
  show ?case
  proof (cases "labels_fit r i")
    case True
    then obtain r1 ks1 where 1: "each_fn lib name i r = Inr (r1, ks1)"
      using each_fn_Inr_iff [of lib name i r] by blast
    from each_fn_frame [OF 1] have fit: "\<And>j. labels_fit r1 j = labels_fit r j"
      by (intro labels_fit_cong) simp_all
    have "(\<exists>r' ks. Each lib (e # es) r = Inr (r', ks)) = (\<exists>r' ks. Each lib es r1 = Inr (r', ks))"
      by (cases "Each lib es r1") (auto simp: e 1)
    also have "\<dots> = (\<forall>(name, i) \<in> set es. labels_fit r i)"
      by (simp add: Cons.IH fit)
    finally show ?thesis
      using True by (simp add: e)
  next
    case False
    then have "each_fn lib name i r = Inl IndexOutOfRange"
      using each_fn_Inr_iff [of lib name i r]
      by (cases "each_fn lib name i r") (auto intro: panic.exhaust)
    with False show ?thesis
      by (simp add: e)
  qed
qed

lemma Each_ss_other:
  "Each lib es r = Inr (r', ks) \<Longrightarrow> \<forall>v. (n, Counter v) \<notin> set es \<Longrightarrow> ss r' n = ss r n"
proof (induction es arbitrary: r ks)
  case Nil
  then show ?case by simp
next
  case (Cons e es)
  obtain name i where e: "e = (name, i)" by (cases e)
  from Cons.prems(1) e obtain r1 ks1 ks2 where
    1: "each_fn lib name i r = Inr (r1, ks1)" and 2: "Each lib es r1 = Inr (r', ks2)"
    by (auto split: sum.splits prod.splits)
  from Cons.prems(2) have "\<forall>v. (n, Counter v) \<notin> set es" by simp
  from Cons.IH [OF 2 this] have "ss r' n = ss r1 n" .
  moreover from Cons.prems(2) e have "ss r1 n = ss r n"
    using each_fn_ss [OF 1] by (cases i) auto
  ultimately show ?case by simp
qed

lemma Each_count_calls:
  "Each lib es r = Inr (r', ks) \<Longrightarrow> k \<in> set ks \<Longrightarrow> is_Count k \<Longrightarrow>
     \<exists>v. (call_name k, Counter v) \<in> set es"
proof (induction es arbitrary: r ks)
  case Nil
  then show ?case by simp
next
  case (Cons e es)
  obtain name i where e: "e = (name, i)" by (cases e)
  from Cons.prems(1) e obtain r1 ks1 ks2 where
    1: "each_fn lib name i r = Inr (r1, ks1)" and 2: "Each lib es r1 = Inr (r', ks2)"
    and ks: "ks = ks1 @ ks2"
    by (auto split: sum.splits prod.splits)
  from Cons.prems(2) ks consider "k \<in> set ks1" | "k \<in> set ks2" by auto
  then show ?case
  proof cases
    case 1
    with each_fn_count_calls [OF \<open>each_fn lib name i r = Inr (r1, ks1)\<close> 1 Cons.prems(3)] e
    show ?thesis by auto
  next
    case 2
    with Cons.IH [OF \<open>Each lib es r1 = Inr (r', ks2)\<close> 2 Cons.prems(3)]
    show ?thesis by auto
  qed
qed

lemma count_calls_none:
  assumes "Each lib es r = Inr (r', ks)" "name \<notin> fst ` set es"
  shows "count_calls name ks = []"
proof -
  have "\<not> (is_Count k \<and> call_name k = name)" if "k \<in> set ks" for k
  proof
    assume a: "is_Count k \<and> call_name k = name"
    with Each_count_calls [OF assms(1) that] obtain v where "(name, Counter v) \<in> set es"
      by auto
    with assms(2) show False by force
  qed
  then show ?thesis by (simp add: count_calls_def filter_empty_conv)
qed

lemma Each_split:
  assumes "\<forall>(n, i) \<in> set (pre @ (name, i0) # post). labels_fit r i"
  shows "\<exists>r1 a r2 ks b r'.
           Each lib pre r = Inr (r1, a) \<and> each_fn lib name i0 r1 = Inr (r2, ks)
           \<and> Each lib post r2 = Inr (r', b)
           \<and> Each lib (pre @ (name, i0) # post) r = Inr (r', a @ ks @ b)
           \<and> tags r1 = tags r \<and> percentiles r1 = percentiles r \<and> p r1 = p r"
proof -
  from assms obtain r' ks' where all: "Each lib (pre @ (name, i0) # post) r = Inr (r', ks')"
    using Each_Inr_iff [of lib "pre @ (name, i0) # post" r] by blast
  then obtain r1 a where 1: "Each lib pre r = Inr (r1, a)"
    by (auto simp: Each_append split: sum.splits prod.splits)
  with all obtain r2 ks where 2: "each_fn lib name i0 r1 = Inr (r2, ks)"
    by (auto simp: Each_append split: sum.splits prod.splits)
  with all 1 obtain b where 3: "Each lib post r2 = Inr (r', b)" and "ks' = a @ ks @ b"
    by (auto simp: Each_append split: sum.splits prod.splits)
  with all 1 2 Each_frame [OF 1] show ?thesis by auto
qed

lemma Each_counter:
  assumes fit: "\<forall>(n, i) \<in> set es. labels_fit r i"
      and dist: "distinct (map fst es)"
      and mem: "(name, Counter v) \<in> set es"
  shows "\<exists>r' ks. Each lib es r = Inr (r', ks)
           \<and> count_calls name ks = [cn_Count name (v - index_map (ss r) name) (tags r) 1]
           \<and> ss r' name = Some v"
proof -
  from mem obtain pre post where es: "es = pre @ (name, Counter v) # post"
    by (auto dest: split_list)
  from dist es have pre: "name \<notin> fst ` set pre" and post: "name \<notin> fst ` set post"
    by auto
  from Each_split [of pre name "Counter v" post r lib] fit es
  obtain r1 a r2 ks b r' where
    1: "Each lib pre r = Inr (r1, a)" and 2: "each_fn lib name (Counter v) r1 = Inr (r2, ks)"
    and 3: "Each lib post r2 = Inr (r', b)" and all: "Each lib es r = Inr (r', a @ ks @ b)"
    and t: "tags r1 = tags r"
    by blast
  from pre have "\<forall>w. (name, Counter w) \<notin> set pre" by force
  from Each_ss_other [OF 1 this] have s1: "ss r1 name = ss r name" .
  from post have "\<forall>w. (name, Counter w) \<notin> set post" by force
  from Each_ss_other [OF 3 this] have s3: "ss r' name = ss r2 name" .
  from 2 have ks: "ks = [cn_Count name (v - index_map (ss r1) name) (tags r1) 1]"
    and s2: "ss r2 name = Some v"
    by (auto simp: Let_def)
  from s1 have "index_map (ss r1) name = index_map (ss r) name"
    by (simp add: index_map_def)
  with ks t have ks': "ks = [cn_Count name (v - index_map (ss r) name) (tags r) 1]"
    by simp
  have "count_calls name (a @ ks @ b) = count_calls name a @ count_calls name ks @ count_calls name b"
    by (simp add: count_calls_def)
  also have "\<dots> = [cn_Count name (v - index_map (ss r) name) (tags r) 1]"
    by (simp add: count_calls_none [OF 1 pre] count_calls_none [OF 3 post] ks')
       (simp add: count_calls_def)
  finally show ?thesis using all s2 s3 by simp
qed




lemma Flush_eq:
  "Flush lib world r =
     (case Each lib (world (registry r)) r of
        Inl pn \<Rightarrow> Inl pn
      | Inr (r', ks) \<Rightarrow> Inr (None, r', ks))"
  by (simp add: Flush_def submit_def)

lemma sint_diff_exact:
  fixes a b :: int64
  assumes "- (2 ^ 63) \<le> sint a - sint b" "sint a - sint b < 2 ^ 63"
  shows "sint (a - b) = sint a - sint b"
  using assms by (simp add: sint_word_diff signed_take_bit_int_eq_self)

section \<open>Counters\<close>

text \<open>
  C1. Let a registry with distinct names hold the counter \<open>name\<close>, reading \<open>c1\<close> at one
  flush and \<open>c2\<close> at the next, and let no percentile loop of either flush panic. Then
  both flushes return \<open>nil\<close>; the first makes exactly one \<open>Count\<close> call under \<open>name\<close>,
  with the value \<open>c1\<close> minus the stored value (zero for a name not stored, so the value
  is \<open>c1\<close> itself) and stores \<open>c1\<close>; the second makes exactly one \<open>Count\<close> call under
  \<open>name\<close>, with the value \<open>c2 - c1\<close>, and stores \<open>c2\<close>. The subtraction is that of
  \<open>int64\<close>; for \<open>0 \<le> c1 \<le> c2\<close> it is the difference of the integers.
\<close>

theorem counter_delta:
  assumes "\<forall>(n, i) \<in> set (world1 (registry r)). labels_fit r i"
      and "\<forall>(n, i) \<in> set (world2 (registry r)). labels_fit r i"
      and "distinct (map fst (world1 (registry r)))"
      and "distinct (map fst (world2 (registry r)))"
      and "(name, Counter c1) \<in> set (world1 (registry r))"
      and "(name, Counter c2) \<in> set (world2 (registry r))"
  shows "(\<exists>r1 ks1 r2 ks2.
            Flush lib world1 r = Inr (None, r1, ks1)
            \<and> count_calls name ks1 = [cn_Count name (c1 - index_map (ss r) name) (tags r) 1]
            \<and> (ss r name = None \<longrightarrow> count_calls name ks1 = [cn_Count name c1 (tags r) 1])
            \<and> ss r1 name = Some c1
            \<and> Flush lib world2 r1 = Inr (None, r2, ks2)
            \<and> count_calls name ks2 = [cn_Count name (c2 - c1) (tags r) 1]
            \<and> ss r2 name = Some c2)
         \<and> (0 \<le> sint c1 \<and> sint c1 \<le> sint c2 \<longrightarrow> sint (c2 - c1) = sint c2 - sint c1)"
proof
  from Each_counter [OF assms(1,3,5), of lib] obtain r1 ks1 where
    1: "Each lib (world1 (registry r)) r = Inr (r1, ks1)"
    and k1: "count_calls name ks1 = [cn_Count name (c1 - index_map (ss r) name) (tags r) 1]"
    and s1: "ss r1 name = Some c1"
    by blast
  from Each_frame [OF 1] have f: "registry r1 = registry r" "tags r1 = tags r"
    "percentiles r1 = percentiles r" "p r1 = p r" by simp_all
  then have "\<And>i. labels_fit r1 i = labels_fit r i"
    by (intro labels_fit_cong) simp_all
  with assms(2) f have fit2: "\<forall>(n, i) \<in> set (world2 (registry r1)). labels_fit r1 i"
    by simp
  from Each_counter [OF fit2, of name c2 lib] assms(4,6) f obtain r2 ks2 where
    2: "Each lib (world2 (registry r1)) r1 = Inr (r2, ks2)"
    and k2: "count_calls name ks2 = [cn_Count name (c2 - index_map (ss r1) name) (tags r) 1]"
    and s2: "ss r2 name = Some c2"
    by auto
  from s1 have "index_map (ss r1) name = c1" by (simp add: index_map_def)
  with k2 have k2': "count_calls name ks2 = [cn_Count name (c2 - c1) (tags r) 1]" by simp
  have "ss r name = None \<longrightarrow> count_calls name ks1 = [cn_Count name c1 (tags r) 1]"
    using k1 by (simp add: index_map_def)
  with 1 2 k1 s1 k2' s2 show "\<exists>r1 ks1 r2 ks2.
            Flush lib world1 r = Inr (None, r1, ks1)
            \<and> count_calls name ks1 = [cn_Count name (c1 - index_map (ss r) name) (tags r) 1]
            \<and> (ss r name = None \<longrightarrow> count_calls name ks1 = [cn_Count name c1 (tags r) 1])
            \<and> ss r1 name = Some c1
            \<and> Flush lib world2 r1 = Inr (None, r2, ks2)
            \<and> count_calls name ks2 = [cn_Count name (c2 - c1) (tags r) 1]
            \<and> ss r2 name = Some c2"
    by (auto simp: Flush_eq)
next
  show "0 \<le> sint c1 \<and> sint c1 \<le> sint c2 \<longrightarrow> sint (c2 - c1) = sint c2 - sint c1"
  proof
    assume a: "0 \<le> sint c1 \<and> sint c1 \<le> sint c2"
    have "sint c2 < 2 ^ 63" using sint_lt [of c2] by simp
    with a show "sint (c2 - c1) = sint c2 - sint c1"
      by (intro sint_diff_exact) auto
  qed
qed

theorem counter_delta_witness:
  "\<exists>r1 ks1 r2 ks2.
     Flush refusing (\<lambda>_. [(''foo'', Counter 2)]) test_reporter = Inr (None, r1, ks1)
     \<and> count_calls ''foo'' ks1 = [cn_Count ''foo'' 2 [] 1]
     \<and> ss r1 ''foo'' = Some 2
     \<and> Flush refusing (\<lambda>_. [(''foo'', Counter 3)]) r1 = Inr (None, r2, ks2)
     \<and> count_calls ''foo'' ks2 = [cn_Count ''foo'' 1 [] 1]
     \<and> ss r2 ''foo'' = Some 3"
  using counter_delta [of "\<lambda>_. [(''foo'', Counter 2)]" test_reporter
      "\<lambda>_. [(''foo'', Counter 3)]" "''foo''" 2 3 refusing]
  by (simp add: labels_fit_def test_reporter_def index_map_def)



section \<open>Two flushes of the same readings\<close>





section \<open>What a flush changes and what it returns\<close>

lemma cn_call_nil [simp]: "(cn (cn_call lib k r) = None) = (cn r = None)"
  by (simp add: cn_call_def split: option.split prod.split)

lemma cn_calls_nil [simp]: "(cn (cn_calls lib ks r) = None) = (cn r = None)"
  by (induction ks arbitrary: r) simp_all

lemma each_fn_nil:
  assumes "each_fn lib name i r = Inr (r', ks)"
  shows "(cn r' = None) = (cn r = None)"
  using assms
  by (cases i) (auto simp: each_fn_Histogram each_fn_Timer Let_def
      simp del: each_fn_loops split: if_splits)

lemma Each_nil:
  "Each lib es r = Inr (r', ks) \<Longrightarrow> (cn r' = None) = (cn r = None)"
proof (induction es arbitrary: r ks)
  case Nil
  then show ?case by simp
next
  case (Cons e es)
  obtain name i where e: "e = (name, i)" by (cases e)
  from Cons.prems e obtain r1 ks1 ks2 where
    1: "each_fn lib name i r = Inr (r1, ks1)" and 2: "Each lib es r1 = Inr (r', ks2)"
    by (auto split: sum.splits prod.splits)
  from each_fn_nil [OF 1] Cons.IH [OF 2] show ?case by simp
qed

lemma Flush_Inr_iff:
  "(\<exists>r' ks. Flush lib world r = Inr (None, r', ks))
     = (\<forall>(n, i) \<in> set (world (registry r)). labels_fit r i)"
proof -
  have "(\<exists>r' ks. Flush lib world r = Inr (None, r', ks))
      = (\<exists>r' ks. Each lib (world (registry r)) r = Inr (r', ks))"
    by (cases "Each lib (world (registry r)) r") (auto simp: Flush_eq)
  then show ?thesis by (simp add: Each_Inr_iff)
qed

lemma labels_fit_sized:
  "labels_cached r \<Longrightarrow> Percentiles_sized (percentiles r) i \<Longrightarrow> labels_fit r i"
  by (cases i) (simp_all add: labels_cached_def Percentiles_sized_def labels_fit_def)

lemma Flush_split:
  assumes "world (registry r) = pre @ (name, i0) # post"
      and "\<forall>(n, i) \<in> set (world (registry r)). labels_fit r i"
  shows "\<exists>r1 a r2 ks b r'.
           Each lib pre r = Inr (r1, a) \<and> each_fn lib name i0 r1 = Inr (r2, ks)
           \<and> Each lib post r2 = Inr (r', b)
           \<and> Flush lib world r = Inr (None, r', a @ ks @ b)
           \<and> tags r1 = tags r \<and> percentiles r1 = percentiles r \<and> p r1 = p r"
proof -
  from assms have "\<forall>(n, i) \<in> set (pre @ (name, i0) # post). labels_fit r i" by simp
  from Each_split [OF this, of lib] obtain r1 a r2 ks b r' where
    "Each lib pre r = Inr (r1, a)" "each_fn lib name i0 r1 = Inr (r2, ks)"
    "Each lib post r2 = Inr (r', b)"
    "Each lib (pre @ (name, i0) # post) r = Inr (r', a @ ks @ b)"
    "tags r1 = tags r" "percentiles r1 = percentiles r" "p r1 = p r"
    by blast
  moreover from this assms(1) have "Flush lib world r = Inr (None, r', a @ ks @ b)"
    by (simp add: Flush_eq)
  ultimately show ?thesis by blast
qed

text \<open>
  C9. A flush that returns leaves the address, the prefix, the registry handle, the
  tags, the percentiles and the labels as they were, and a client stays nil or not nil
  (what the client holds is the client's own state). In the table \<open>ss\<close>, every name
  that is not the name of a counter of this flush keeps its entry.
\<close>

theorem flush_frame:
  assumes "Flush lib world r = Inr (e, r', ks)"
  shows "addr r' = addr r \<and> prefix r' = prefix r \<and> registry r' = registry r
         \<and> tags r' = tags r \<and> percentiles r' = percentiles r \<and> p r' = p r
         \<and> (cn r' = None) = (cn r = None)
         \<and> (\<forall>n. (\<forall>v. (n, Counter v) \<notin> set (world (registry r))) \<longrightarrow> ss r' n = ss r n)"
proof -
  from assms have 1: "Each lib (world (registry r)) r = Inr (r', ks)"
    by (auto simp: Flush_eq split: sum.splits)
  from Each_frame [OF 1] Each_nil [OF 1] Each_ss_other [OF 1] show ?thesis
    by simp
qed

theorem flush_frame_witness:
  "\<exists>r' ks. Flush refusing (\<lambda>_. [(''hits'', Counter 2), (''foo'', Meter foo_meter)])
       test_reporter = Inr (None, r', ks)
     \<and> addr r' = ''127.0.0.1:9999'' \<and> prefix r' = '''' \<and> registry r' = RegistryRef 0
     \<and> tags r' = [] \<and> percentiles r' = percentiles test_reporter \<and> p r' = p test_reporter
     \<and> cn r' \<noteq> None \<and> ss r' ''foo'' = None"
proof -
  let ?w = "\<lambda>_ :: Registry. [(''hits'', Counter 2), (''foo'', Meter foo_meter)]"
  have "\<forall>(n, i) \<in> set (?w (registry test_reporter)). labels_fit test_reporter i"
    by (simp add: labels_fit_def)
  then obtain r' ks where f: "Flush refusing ?w test_reporter = Inr (None, r', ks)"
    using Flush_Inr_iff [of refusing ?w test_reporter] by blast
  from flush_frame [OF f] f show ?thesis
    by (simp add: test_reporter_def)
qed

text \<open>
  C8. \<open>Flush\<close> either panics inside the iteration (an index out of range in a
  percentile loop) or returns \<open>nil\<close>: no result carries an error, whatever the client
  package returns from its sends. It returns \<open>nil\<close> whenever no percentile loop leaves
  its values, in particular for a reporter whose labels are those of its percentiles
  and snapshots that return one value for each percentile. The witness runs it on a
  client whose every send fails.
\<close>

theorem Flush_returns_nil:
  "(Flush lib world r = Inl IndexOutOfRange \<or> (\<exists>r' ks. Flush lib world r = Inr (None, r', ks)))
   \<and> ((\<forall>(n, i) \<in> set (world (registry r)). labels_fit r i)
        \<longrightarrow> (\<exists>r' ks. Flush lib world r = Inr (None, r', ks)))
   \<and> (labels_cached r \<and> (\<forall>(n, i) \<in> set (world (registry r)). Percentiles_sized (percentiles r) i)
        \<longrightarrow> (\<exists>r' ks. Flush lib world r = Inr (None, r', ks)))"
proof (intro conjI impI)
  show "Flush lib world r = Inl IndexOutOfRange \<or> (\<exists>r' ks. Flush lib world r = Inr (None, r', ks))"
  proof (cases "Each lib (world (registry r)) r")
    case (Inl pn)
    then show ?thesis by (cases pn) (simp add: Flush_eq)
  next
    case (Inr x)
    then show ?thesis by (cases x) (simp add: Flush_eq)
  qed
next
  assume "\<forall>(n, i) \<in> set (world (registry r)). labels_fit r i"
  then show "\<exists>r' ks. Flush lib world r = Inr (None, r', ks)"
    by (simp add: Flush_Inr_iff)
next
  assume "labels_cached r \<and> (\<forall>(n, i) \<in> set (world (registry r)). Percentiles_sized (percentiles r) i)"
  then have "\<forall>(n, i) \<in> set (world (registry r)). labels_fit r i"
    by (auto intro: labels_fit_sized)
  then show "\<exists>r' ks. Flush lib world r = Inr (None, r', ks)"
    by (simp add: Flush_Inr_iff)
qed

theorem Flush_returns_nil_witness:
  "(\<forall>c k. fst (statsd_send refusing c k) = Some (Error ''connection refused''))
   \<and> (\<exists>r' ks. Flush refusing
          (\<lambda>_. [(''hits'', Counter 2), (''foo'', Histogram foo_histogram)]) test_reporter
        = Inr (None, r', ks))"
proof
  show "\<forall>c k. fst (statsd_send refusing c k) = Some (Error ''connection refused'')"
    by (simp add: refusing_def)
next
  have "labels_cached test_reporter"
    by (simp add: labels_cached_def test_reporter_def Sprintf_pct_def fmt_2f_def
        round_half_even_def decimal.simps digit_def Let_def)
  moreover have "\<forall>(n, i) \<in> set ((\<lambda>_. [(''hits'', Counter 2), (''foo'', Histogram foo_histogram)])
      (registry test_reporter)). Percentiles_sized (percentiles test_reporter) i"
    by (simp add: Percentiles_sized_def foo_histogram_def)
  ultimately show "\<exists>r' ks. Flush refusing
          (\<lambda>_. [(''hits'', Counter 2), (''foo'', Histogram foo_histogram)]) test_reporter
        = Inr (None, r', ks)"
    using Flush_returns_nil [of refusing
        "\<lambda>_. [(''hits'', Counter 2), (''foo'', Histogram foo_histogram)]" test_reporter]
    by blast
qed

section \<open>Conversion to milliseconds\<close>







section \<open>Meters, histograms and timers\<close>

lemma pct_calls_length: "length (pct_calls name conv tgs ls vs) = min (length ls) (length vs)"
  by (simp add: pct_calls_def)

lemma pct_calls_nth:
  "j < length ls \<Longrightarrow> j < length vs \<Longrightarrow>
     pct_calls name conv tgs ls vs ! j = cn_Gauge (name @ ls ! j) (conv (vs ! j)) tgs 1"
  by (simp add: pct_calls_def)



text \<open>
  C5. Let the registry hold the meter \<open>name\<close> between the entries \<open>pre\<close> and \<open>post\<close>, and
  let no percentile loop of another entry panic. Then the flush returns \<open>nil\<close> and its
  calls are those of \<open>pre\<close>, then exactly the five \<open>Gauge\<close> calls \<open>.count\<close>, \<open>.rate1\<close>,
  \<open>.rate5\<close>, \<open>.rate15\<close>, \<open>.mean\<close> (the mean rate), then those of \<open>post\<close>. The
  percentiles and labels of the reporter are arbitrary: a meter has no percentile call.
\<close>

theorem meter_calls:
  assumes "world (registry r) = pre @ (name, Meter ms) # post"
      and "\<forall>(n, i) \<in> set (world (registry r)). labels_fit r i"
  shows "\<exists>r1 a r2 b r'.
           Each lib pre r = Inr (r1, a) \<and> Each lib post r2 = Inr (r', b)
           \<and> Flush lib world r =
               Inr (None, r',
                 a @ [cn_Gauge (name @ ''.count'') (float64_of_int64 (m_Count ms)) (tags r) 1,
                      cn_Gauge (name @ ''.rate1'') (m_Rate1 ms) (tags r) 1,
                      cn_Gauge (name @ ''.rate5'') (m_Rate5 ms) (tags r) 1,
                      cn_Gauge (name @ ''.rate15'') (m_Rate15 ms) (tags r) 1,
                      cn_Gauge (name @ ''.mean'') (m_RateMean ms) (tags r) 1] @ b)"
proof -
  from Flush_split [of world r pre name "Meter ms" post lib, OF assms] obtain r1 a r2 ks b r' where
    1: "Each lib pre r = Inr (r1, a)" and 2: "each_fn lib name (Meter ms) r1 = Inr (r2, ks)"
    and 3: "Each lib post r2 = Inr (r', b)"
    and 4: "Flush lib world r = Inr (None, r', a @ ks @ b)" and t: "tags r1 = tags r"
    by blast
  from 2 t have "ks = [cn_Gauge (name @ ''.count'') (float64_of_int64 (m_Count ms)) (tags r) 1,
                      cn_Gauge (name @ ''.rate1'') (m_Rate1 ms) (tags r) 1,
                      cn_Gauge (name @ ''.rate5'') (m_Rate5 ms) (tags r) 1,
                      cn_Gauge (name @ ''.rate15'') (m_Rate15 ms) (tags r) 1,
                      cn_Gauge (name @ ''.mean'') (m_RateMean ms) (tags r) 1]"
    by (auto simp: Let_def)
  with 1 3 4 show ?thesis by blast
qed

theorem meter_calls_witness:
  "\<exists>r'. Flush refusing (\<lambda>_. [(''foo'', Meter foo_meter)]) test_reporter =
       Inr (None, r',
         [cn_Gauge ''foo.count'' 10 [] 1, cn_Gauge ''foo.rate1'' 0 [] 1,
          cn_Gauge ''foo.rate5'' 0 [] 1, cn_Gauge ''foo.rate15'' 0 [] 1,
          cn_Gauge ''foo.mean'' 250 [] 1])"
  using meter_calls [of "\<lambda>_. [(''foo'', Meter foo_meter)]" test_reporter "[]" "''foo''"
      foo_meter "[]" refusing]
  by (simp add: labels_fit_def foo_meter_def float64_of_int64_def test_reporter_def)

text \<open>
  C2. Let the registry hold the histogram \<open>name\<close> between the entries \<open>pre\<close> and
  \<open>post\<close>, let the labels of the reporter be those of its percentiles, and let every
  snapshot return one value for each percentile. Then the flush returns \<open>nil\<close> and its
  calls are those of \<open>pre\<close>, then the \<open>Gauge\<close> calls \<open>.count\<close>, \<open>.max\<close>, \<open>.min\<close>,
  \<open>.mean\<close>, \<open>.stddev\<close>, \<open>.var\<close> in this order, then one \<open>Gauge\<close> call for each
  percentile, in the order of the list, the \<open>j\<close>-th under the label of the \<open>j\<close>-th
  percentile with the \<open>j\<close>-th value of the snapshot, then those of \<open>post\<close>: 11 calls
  for 5 percentiles, and the first six alone when there is no percentile.
\<close>

theorem histogram_calls:
  assumes "world (registry r) = pre @ (name, Histogram ms) # post"
      and "\<forall>(n, i) \<in> set (world (registry r)). Percentiles_sized (percentiles r) i"
      and "labels_cached r"
  shows "let values = h_Percentiles ms (percentiles r);
             pcts = pct_calls name (\<lambda>x. x) (tags r) (p r) values
         in (\<exists>r1 a r2 b r'.
               Each lib pre r = Inr (r1, a) \<and> Each lib post r2 = Inr (r', b)
               \<and> Flush lib world r =
                   Inr (None, r',
                     a @ [cn_Gauge (name @ ''.count'') (float64_of_int64 (h_Count ms)) (tags r) 1,
                          cn_Gauge (name @ ''.max'') (float64_of_int64 (h_Max ms)) (tags r) 1,
                          cn_Gauge (name @ ''.min'') (float64_of_int64 (h_Min ms)) (tags r) 1,
                          cn_Gauge (name @ ''.mean'') (h_Mean ms) (tags r) 1,
                          cn_Gauge (name @ ''.stddev'') (h_StdDev ms) (tags r) 1,
                          cn_Gauge (name @ ''.var'') (h_Variance ms) (tags r) 1]
                       @ pcts @ b))
            \<and> length pcts = length (percentiles r)
            \<and> (\<forall>j < length (percentiles r).
                  pcts ! j = cn_Gauge (name @ Sprintf_pct (percentiles r ! j * 100))
                               (values ! j) (tags r) 1)
            \<and> (length (percentiles r) = 5 \<longrightarrow> 6 + length pcts = 11)
            \<and> (percentiles r = [] \<longrightarrow> pcts = [])"
proof -
  let ?vals = "h_Percentiles ms (percentiles r)"
  let ?pcts = "pct_calls name (\<lambda>x. x) (tags r) (p r) ?vals"
  from assms(1,2) have len: "length ?vals = length (percentiles r)"
    by (auto simp: Percentiles_sized_def)
  from assms(3) have lp: "length (p r) = length (percentiles r)"
    and pj: "\<And>j. j < length (percentiles r) \<Longrightarrow> p r ! j = Sprintf_pct (percentiles r ! j * 100)"
    by (simp_all add: labels_cached_def)
  from assms(2,3) have fit: "\<forall>(n, i) \<in> set (world (registry r)). labels_fit r i"
    by (auto intro: labels_fit_sized)
  from Flush_split [of world r pre name "Histogram ms" post lib, OF assms(1) fit] obtain r1 a r2 ks b r' where
    1: "Each lib pre r = Inr (r1, a)" and 2: "each_fn lib name (Histogram ms) r1 = Inr (r2, ks)"
    and 3: "Each lib post r2 = Inr (r', b)"
    and 4: "Flush lib world r = Inr (None, r', a @ ks @ b)"
    and f: "tags r1 = tags r" "percentiles r1 = percentiles r" "p r1 = p r"
    by blast
  have empty: "percentiles r = [] \<Longrightarrow> ?pcts = []"
    using lp by (simp add: pct_calls_def)
  from 2 f empty have
    "ks = [cn_Gauge (name @ ''.count'') (float64_of_int64 (h_Count ms)) (tags r) 1,
           cn_Gauge (name @ ''.max'') (float64_of_int64 (h_Max ms)) (tags r) 1,
           cn_Gauge (name @ ''.min'') (float64_of_int64 (h_Min ms)) (tags r) 1,
           cn_Gauge (name @ ''.mean'') (h_Mean ms) (tags r) 1,
           cn_Gauge (name @ ''.stddev'') (h_StdDev ms) (tags r) 1,
           cn_Gauge (name @ ''.var'') (h_Variance ms) (tags r) 1] @ ?pcts"
    by (auto simp: each_fn_Histogram Let_def simp del: each_fn_loops split: if_splits)
  with 1 3 4 have A: "\<exists>r1 a r2 b r'.
               Each lib pre r = Inr (r1, a) \<and> Each lib post r2 = Inr (r', b)
               \<and> Flush lib world r =
                   Inr (None, r',
                     a @ [cn_Gauge (name @ ''.count'') (float64_of_int64 (h_Count ms)) (tags r) 1,
                          cn_Gauge (name @ ''.max'') (float64_of_int64 (h_Max ms)) (tags r) 1,
                          cn_Gauge (name @ ''.min'') (float64_of_int64 (h_Min ms)) (tags r) 1,
                          cn_Gauge (name @ ''.mean'') (h_Mean ms) (tags r) 1,
                          cn_Gauge (name @ ''.stddev'') (h_StdDev ms) (tags r) 1,
                          cn_Gauge (name @ ''.var'') (h_Variance ms) (tags r) 1]
                       @ ?pcts @ b)"
    by auto
  have B: "length ?pcts = length (percentiles r)"
    by (simp add: pct_calls_length len lp)
  have C: "\<forall>j < length (percentiles r).
             ?pcts ! j = cn_Gauge (name @ Sprintf_pct (percentiles r ! j * 100))
                          (?vals ! j) (tags r) 1"
    by (simp add: pct_calls_nth len lp pj)
  from A B C empty show ?thesis
    unfolding Let_def by simp
qed

theorem histogram_calls_witness:
  "\<exists>r'. Flush refusing (\<lambda>_. [(''foo'', Histogram foo_histogram)]) test_reporter =
       Inr (None, r',
         [cn_Gauge ''foo.count'' 2 [] 1, cn_Gauge ''foo.max'' 11 [] 1,
          cn_Gauge ''foo.min'' 1 [] 1, cn_Gauge ''foo.mean'' 6 [] 1,
          cn_Gauge ''foo.stddev'' 5 [] 1, cn_Gauge ''foo.var'' 25 [] 1,
          cn_Gauge ''foo.pct-50.00'' 6 [] 1, cn_Gauge ''foo.pct-75.00'' 11 [] 1,
          cn_Gauge ''foo.pct-95.00'' 11 [] 1, cn_Gauge ''foo.pct-99.00'' 11 [] 1,
          cn_Gauge ''foo.pct-99.90'' 11 [] 1])"
proof -
  have l: "labels_cached test_reporter"
    by (simp add: labels_cached_def test_reporter_def Sprintf_pct_def fmt_2f_def
        round_half_even_def decimal.simps digit_def Let_def)
  have s: "\<forall>(n, i) \<in> set ((\<lambda>_. [(''foo'', Histogram foo_histogram)]) (registry test_reporter)).
      Percentiles_sized (percentiles test_reporter) i"
    by (simp add: Percentiles_sized_def foo_histogram_def)
  have w: "(\<lambda>_. [(''foo'', Histogram foo_histogram)]) (registry test_reporter)
      = [] @ (''foo'', Histogram foo_histogram) # []"
    by simp
  from histogram_calls [of "\<lambda>_. [(''foo'', Histogram foo_histogram)]" test_reporter "[]"
      "''foo''" foo_histogram "[]" refusing, OF w s l]
  show ?thesis
    by (simp add: Let_def pct_calls_def foo_histogram_def float64_of_int64_def
        test_reporter_def)
qed




section \<open>Construction\<close>

lemma drop_to_last: "v \<noteq> [] \<Longrightarrow> drop (length v - Suc 0) v = [last v]"
  by (cases v rule: rev_cases) simp_all

lemma HasSuffix_dot: "HasSuffix v ''.'' = (v \<noteq> [] \<and> last v = CHR ''.'')"
proof (cases "v = []")
  case True
  then show ?thesis by (simp add: HasSuffix_def)
next
  case False
  then have "Suc 0 \<le> length v" by (cases v) simp_all
  with False show ?thesis
    by (simp add: HasSuffix_def drop_to_last)
qed

text \<open>
  C6, as amended. For every string \<open>v\<close>, \<open>WithPrefix v\<close> stores \<open>v\<close> itself when \<open>v\<close> ends
  in the separator \<open>.\<close> (nothing is added, so the separator is not doubled) and \<open>v\<close>
  followed by one separator otherwise, the empty string included: the stored prefix is
  never empty, it always ends in the separator, and for the empty \<open>v\<close> it is \<open>.\<close>
  alone.
\<close>

theorem WithPrefix_stored:
  "prefix (WithPrefix v r) = (if v \<noteq> [] \<and> last v = CHR ''.'' then v else v @ ''.'')
   \<and> prefix (WithPrefix v r) \<noteq> []
   \<and> last (prefix (WithPrefix v r)) = CHR ''.''
   \<and> prefix (WithPrefix [] r) = ''.''"
  by (simp add: WithPrefix_def HasSuffix_dot Let_def)

theorem WithPrefix_stored_witness:
  "prefix (WithPrefix ''svc'' (initial :: nat Reporter)) = ''svc.''
   \<and> prefix (WithPrefix ''svc.'' (initial :: nat Reporter)) = ''svc.''"
  using WithPrefix_stored [of "''svc''" "initial :: nat Reporter"]
    WithPrefix_stored [of "''svc.''" "initial :: nat Reporter"]
  by simp

text \<open>
  The claim as stated fails at the empty string: \<open>WithPrefix ""\<close> does not leave the
  prefix empty but stores \<open>.\<close>, also through \<open>New\<close>.
\<close>

theorem WithPrefix_empty_counterexample:
  "prefix (WithPrefix '''' (initial :: nat Reporter)) = ''.''
   \<and> prefix (WithPrefix '''' (initial :: nat Reporter)) \<noteq> ''''
   \<and> map_sum id prefix (New refusing 1 [WithPrefix '''']) = Inr ''.''"
  by (simp add: WithPrefix_def HasSuffix_def Let_def New_def initial_def refusing_def)










end
